theory Spec2Isabelle
  imports Complex_Main
begin

section \<open>The pathfinding controller of SkeldJS (packages/pathfinding, Pathfinder.ts)\<close>

text \<open>
  The class \<^verbatim>\<open>SkeldjsPathfinder\<close> is embedded as a record of its fields, and each
  method as a function from the record to an outcome: the new record, the effects the
  call had on its collaborators (emitted events and calls of the movement actuator),
  and the exception it raised, if any. JavaScript numbers are read as reals (there is
  no NaN; the only test on a number the controller makes is its truthiness, which is
  \<open>x \<noteq> 0\<close>), the tick counter as a natural number.

  The grid (\<^verbatim>\<open>./util/Grid\<close>), the search (\<^verbatim>\<open>./engine\<close>) and the file system are
  collaborators whose code is not part of the controller: they are parameters of the
  model (record \<open>collab\<close>), total functions over an opaque grid state \<open>'g\<close>. What the
  outside world answers during one call (the map of the room, the position of the
  controlled player, the player speed, the consumer's answer to a move intent, the
  room's player resolution) is the record \<open>world\<close>. Listeners are taken not to call
  back into the controller while an event is being emitted.
\<close>

subsection \<open>Data\<close>

record vector2 =
  vx :: real
  vy :: real

text \<open>A \<^verbatim>\<open>Node\<close> of the grid: the controller reads only its coordinates.\<close>

record node =
  nx :: int
  ny :: int

text \<open>A \<^verbatim>\<open>PlayerData\<close>, as far as the controller reads it.\<close>

record player =
  player_id :: nat
  spawned :: bool
  transform_position :: vector2

datatype error = TypeError | GridLoadError

datatype event =
    PathfindingStart "vector2 option"
  | PathfindingStop bool
  | PathfindingEnd
  | PathfindingPause
  | EngineMove vector2
  | EngineRecalculate "vector2 list"

text \<open>
  An effect is an emitted event or a call \<^verbatim>\<open>transform.move(pos, velocity)\<close> of the
  movement actuator.
\<close>

datatype effect = Emit event | TransformMove vector2 vector2

text \<open>The argument of \<^verbatim>\<open>go\<close>: \<^verbatim>\<open>PlayerDataResolvable | Vector2 | Node\<close>.\<close>

datatype go_arg = Vec vector2 | Cell node | Resolvable nat

record config =
  recalculateEvery :: "nat option"

record 'g pathfinder =
  tick :: nat
  moved :: bool
  paused :: bool
  destination :: "vector2 option"
  grid :: "'g option"
  path :: "node list option"
  following :: "player option"
  config :: config

text \<open>
  The collaborators. \<open>loadGrid\<close> stands for \<^verbatim>\<open>Grid.fromBuffer(fs.readFileSync(...))\<close>,
  which raises when the file of the map is missing or malformed. \<open>reset\<close> and
  \<open>getShortestPath\<close> mutate the per-search marks of the grid, so they return the grid.
  \<open>hypot\<close> is \<^verbatim>\<open>Math.hypot\<close>, floating-point arithmetic that no property below reads.
\<close>

record 'g collab =
  loadGrid :: "nat \<Rightarrow> error + 'g"
  nearest :: "'g \<Rightarrow> real \<Rightarrow> real \<Rightarrow> node option"
  actual :: "'g \<Rightarrow> int \<Rightarrow> int \<Rightarrow> vector2"
  reset :: "'g \<Rightarrow> 'g"
  getShortestPath :: "'g \<Rightarrow> node option \<Rightarrow> node option \<Rightarrow> node list \<times> 'g"
  hypot :: "real \<Rightarrow> real \<Rightarrow> real"

record world =
  room_map :: "nat option"
  position :: "vector2 option"
  playerSpeed :: real
  accepts_move :: "vector2 \<Rightarrow> bool"
  resolvePlayer :: "go_arg \<Rightarrow> player option"

text \<open>
  How a call ends: it returns or it raises, and either way it leaves the controller in
  a state and has had its effects up to that point.
\<close>

datatype 'g outcome =
    Returned "'g pathfinder" "effect list"
  | Thrown error "'g pathfinder" "effect list"

fun state_of :: "'g outcome \<Rightarrow> 'g pathfinder" where
  "state_of (Returned s es) = s"
| "state_of (Thrown e s es) = s"

fun effects_of :: "'g outcome \<Rightarrow> effect list" where
  "effects_of (Returned s es) = es"
| "effects_of (Thrown e s es) = es"

fun returns :: "'g outcome \<Rightarrow> bool" where
  "returns (Returned s es) = True"
| "returns (Thrown e s es) = False"

text \<open>Sequencing: the rest of a method runs only when the first part returned.\<close>

fun and_then :: "'g outcome \<Rightarrow> ('g pathfinder \<Rightarrow> 'g outcome) \<Rightarrow> 'g outcome" where
  "and_then (Thrown e s es) f = Thrown e s es"
| "and_then (Returned s es) f =
     (case f s of
        Returned s' es' \<Rightarrow> Returned s' (es @ es')
      | Thrown e s' es' \<Rightarrow> Thrown e s' (es @ es'))"

subsection \<open>The constructor\<close>

text \<open>
  The constructor sets \<^verbatim>\<open>_tick = 0\<close>; every other field starts undefined, which is
  \<open>None\<close> for the references and falsy for the two flags.
\<close>

definition init :: "config \<Rightarrow> 'g pathfinder" where
  "init cfg = \<lparr> tick = 0, moved = False, paused = False, destination = None,
     grid = None, path = None, following = None, config = cfg \<rparr>"

definition MovementInterval :: nat where
  "MovementInterval = 6"

subsection \<open>Getters\<close>

text \<open>
  \<^verbatim>\<open>snode\<close> and \<^verbatim>\<open>dnode\<close> read \<^verbatim>\<open>this.grid\<close>; every caller has the grid at hand
  (the tick handler after loading it, \<^verbatim>\<open>recalculate\<close> after \<^verbatim>\<open>this.grid.reset()\<close>
  returned), so it is an argument here.
\<close>

definition snode :: "'g collab \<Rightarrow> world \<Rightarrow> 'g \<Rightarrow> node option" where
  "snode c w g =
     (case position w of
        None \<Rightarrow> None
      | Some p \<Rightarrow> nearest c g (vx p) (vy p))"

definition dnode :: "'g collab \<Rightarrow> 'g pathfinder \<Rightarrow> 'g \<Rightarrow> node option" where
  "dnode c s g =
     (case destination s of
        None \<Rightarrow> None
      | Some d \<Rightarrow> nearest c g (vx d) (vy d))"

subsection \<open>recalculate, pause, start, stop\<close>

definition recalculate :: "'g collab \<Rightarrow> world \<Rightarrow> 'g pathfinder \<Rightarrow> 'g outcome" where
  "recalculate c w s =
     (case grid s of
        None \<Rightarrow> Thrown TypeError s []
      | Some g \<Rightarrow>
          (let g1 = reset c g;
               (p, g2) = getShortestPath c g1 (snode c w g1) (dnode c s g1)
           in Returned (s\<lparr> grid := Some g2, path := Some p \<rparr>)
                [Emit (EngineRecalculate (map (\<lambda>n. actual c g2 (nx n) (ny n)) p))]))"

definition pause :: "'g pathfinder \<Rightarrow> 'g outcome" where
  "pause s = Returned (s\<lparr> paused := True \<rparr>) [Emit PathfindingPause]"

definition start :: "'g pathfinder \<Rightarrow> 'g outcome" where
  "start s = Returned (s\<lparr> paused := False \<rparr>) [Emit (PathfindingStart (destination s))]"

text \<open>\<^verbatim>\<open>_stop(reached)\<close>\<close>

definition stop_reached :: "bool \<Rightarrow> 'g pathfinder \<Rightarrow> 'g outcome" where
  "stop_reached reached s =
     Returned (s\<lparr> destination := None, moved := (if \<not> reached then True else moved s) \<rparr>)
       (Emit (PathfindingStop reached) # (if reached then [Emit PathfindingEnd] else []))"

definition stop :: "'g pathfinder \<Rightarrow> 'g outcome" where
  "stop s = stop_reached False s"

subsection \<open>The tick handler\<close>

text \<open>
  \<^verbatim>\<open>_ontick\<close>, in the three parts it is written in. Lines 151 to 164: the counter, the
  movement interval, the map, the lazy load of the grid and the two nearest cells.
  The part either ends the tick or hands the incremented state on.
\<close>

datatype 'g gate = Done "'g outcome" | Proceed "'g pathfinder"

definition ontick_cells :: "'g collab \<Rightarrow> world \<Rightarrow> 'g \<Rightarrow> 'g pathfinder \<Rightarrow> 'g gate" where
  "ontick_cells c w g s =
     (if snode c w g = None \<or> dnode c s g = None then Done (Returned s []) else Proceed s)"

definition ontick_gate :: "'g collab \<Rightarrow> world \<Rightarrow> 'g pathfinder \<Rightarrow> 'g gate" where
  "ontick_gate c w s =
     (let s1 = s\<lparr> tick := tick s + 1 \<rparr> in
      if tick s1 mod MovementInterval \<noteq> 0 then Done (Returned s1 [])
      else case room_map w of
        None \<Rightarrow> Done (Returned s1 [])
      | Some m \<Rightarrow>
          (case grid s1 of
             Some g \<Rightarrow> ontick_cells c w g s1
           | None \<Rightarrow>
               (case loadGrid c m of
                  Inl e \<Rightarrow> Done (Thrown e s1 [])
                | Inr g \<Rightarrow> ontick_cells c w g (s1\<lparr> grid := Some g \<rparr>))))"

text \<open>\<^verbatim>\<open>this.config.recalculateEvery || 1\<close>\<close>

definition recalculate_period :: "config \<Rightarrow> nat" where
  "recalculate_period cfg =
     (case recalculateEvery cfg of
        None \<Rightarrow> 1
      | Some n \<Rightarrow> if n = 0 then 1 else n)"

text \<open>Lines 166 to 173: the three triggers of a recalculation.\<close>

definition must_recalculate :: "'g pathfinder \<Rightarrow> bool" where
  "must_recalculate s \<longleftrightarrow>
     moved s \<or> path s = None \<or> tick s mod recalculate_period (config s) = 0"

definition ontick_recalculate :: "'g collab \<Rightarrow> world \<Rightarrow> 'g pathfinder \<Rightarrow> 'g outcome" where
  "ontick_recalculate c w s =
     (if must_recalculate s
      then and_then (recalculate c w s) (\<lambda>s'. Returned (s'\<lparr> moved := False \<rparr>) [])
      else Returned s [])"

text \<open>
  Lines 175 to 198: the pause flag, then the first cell of the path is shifted off.
  Dereferencing an absent path, grid or position raises a TypeError.
\<close>

definition ontick_consume :: "'g collab \<Rightarrow> world \<Rightarrow> 'g pathfinder \<Rightarrow> 'g outcome" where
  "ontick_consume c w s =
     (if paused s then Returned s []
      else case path s of
        None \<Rightarrow> Thrown TypeError s []
      | Some [] \<Rightarrow> Returned (s\<lparr> destination := None, path := None \<rparr>) []
      | Some (next # rest) \<Rightarrow>
          (let s1 = s\<lparr> path := Some rest \<rparr> in
           case grid s1 of
             None \<Rightarrow> Thrown TypeError s1 []
           | Some g \<Rightarrow>
               (let pos = actual c g (nx next) (ny next) in
                case position w of
                  None \<Rightarrow> Thrown TypeError s1 []
                | Some me \<Rightarrow>
                    (let dist = hypot c (vx me - vx pos) (vy me - vy pos);
                         moves = Emit (EngineMove pos) #
                           (if accepts_move w pos
                            then [TransformMove pos
                                    \<lparr> vx = dist * playerSpeed w, vy = dist * playerSpeed w \<rparr>]
                            else [])
                     in if rest = []
                        then and_then (Returned s1 moves) (stop_reached True)
                        else Returned s1 moves))))"

definition ontick :: "'g collab \<Rightarrow> world \<Rightarrow> 'g pathfinder \<Rightarrow> 'g outcome" where
  "ontick c w s =
     (case ontick_gate c w s of
        Done out \<Rightarrow> out
      | Proceed s1 \<Rightarrow> and_then (ontick_recalculate c w s1) (ontick_consume c w))"

subsection \<open>The controller at the recalculate notification\<close>



subsection \<open>go\<close>

text \<open>\<^verbatim>\<open>_go(dest)\<close>\<close>

definition go_to :: "vector2 \<Rightarrow> 'g pathfinder \<Rightarrow> 'g outcome" where
  "go_to dest s =
     start (s\<lparr> destination := Some \<lparr> vx = vx dest, vy = vy dest \<rparr>, moved := True \<rparr>)"

text \<open>
  \<^verbatim>\<open>go(pos)\<close> reads \<^verbatim>\<open>pos.x\<close> whatever \<^verbatim>\<open>pos\<close> is: the coordinate of a vector or of
  a cell, undefined on anything else. \<open>go_vector\<close> is the test \<^verbatim>\<open>if (vec.x)\<close> together
  with the object \<^verbatim>\<open>_go\<close> then reads as a vector. The call returns a value as well, the
  world position of the cell on the \<^verbatim>\<open>instanceof Node\<close> branch. The method calls itself on
  the position of a resolved player, so it is a partial function: \<open>None\<close> is a call
  that does not return.
\<close>

definition go_vector :: "go_arg \<Rightarrow> vector2 option" where
  "go_vector a =
     (case a of
        Vec v \<Rightarrow> if vx v \<noteq> 0 then Some v else None
      | Cell n \<Rightarrow> if nx n \<noteq> 0 then Some \<lparr> vx = of_int (nx n), vy = of_int (ny n) \<rparr> else None
      | Resolvable _ \<Rightarrow> None)"

partial_function (option) go ::
  "'g collab \<Rightarrow> world \<Rightarrow> 'g pathfinder \<Rightarrow> go_arg \<Rightarrow> ('g outcome \<times> vector2 option) option" where
  "go c w s a =
     (case go_vector a of
        Some vec \<Rightarrow> Some (go_to vec s, None)
      | None \<Rightarrow>
          (case a of
             Cell n \<Rightarrow>
               (case grid s of
                  None \<Rightarrow> Some (Thrown TypeError s [], None)
                | Some g \<Rightarrow> Some (Returned s [], Some (actual c g (nx n) (ny n))))
           | _ \<Rightarrow>
               (case resolvePlayer w a of
                  None \<Rightarrow> Some (Returned s [], None)
                | Some resolved \<Rightarrow>
                    if spawned resolved then go c w s (Vec (transform_position resolved))
                    else Some (Returned s [], None))))"

subsection \<open>The followed player\<close>

text \<open>
  \<^verbatim>\<open>_handleMove\<close>: the owner of the moved component and its new position. The test is
  \<^verbatim>\<open>owner === this.following\<close>; an undefined and a null reference are both \<open>None\<close>
  here, so the model takes the branch at least whenever the code does.
\<close>

definition handleMove :: "player option \<Rightarrow> vector2 \<Rightarrow> 'g pathfinder \<Rightarrow> 'g outcome" where
  "handleMove owner p s =
     (if owner = following s
      then Returned (s\<lparr> destination := Some \<lparr> vx = vx p, vy = vy p \<rparr>, moved := True \<rparr>) []
      else Returned s [])"

definition handleLeave :: "player option \<Rightarrow> 'g pathfinder \<Rightarrow> 'g outcome" where
  "handleLeave leaver s =
     (if leaver = following s
      then and_then (stop_reached False s) (\<lambda>s'. Returned (s'\<lparr> following := None \<rparr>) [])
      else Returned s [])"

definition follow :: "world \<Rightarrow> go_arg \<Rightarrow> 'g pathfinder \<Rightarrow> 'g outcome" where
  "follow w a s =
     (case resolvePlayer w a of
        None \<Rightarrow> Returned s []
      | Some resolved \<Rightarrow>
          if spawned resolved then Returned (s\<lparr> following := Some resolved \<rparr>) []
          else Returned s [])"

subsection \<open>Reading an effect list\<close>

fun stop_or_end :: "effect \<Rightarrow> bool" where
  "stop_or_end (Emit (PathfindingStop r)) = True"
| "stop_or_end (Emit PathfindingEnd) = True"
| "stop_or_end e = False"

text \<open>A move intent or a call of the actuator.\<close>

fun moves :: "effect \<Rightarrow> bool" where
  "moves (Emit (EngineMove p)) = True"
| "moves (TransformMove p v) = True"
| "moves e = False"

subsection \<open>Reachable states\<close>

text \<open>
  The states the controller is in between two calls: the constructor's, and the state
  any method or subscribed handler leaves, whether it returned or raised, whatever the
  world answers.
\<close>

inductive reachable :: "'g collab \<Rightarrow> 'g pathfinder \<Rightarrow> bool" for c :: "'g collab" where
  reach_init: "reachable c (init cfg)"
| reach_ontick: "reachable c s \<Longrightarrow> reachable c (state_of (ontick c w s))"
| reach_recalculate: "reachable c s \<Longrightarrow> reachable c (state_of (recalculate c w s))"
| reach_pause: "reachable c s \<Longrightarrow> reachable c (state_of (pause s))"
| reach_start: "reachable c s \<Longrightarrow> reachable c (state_of (start s))"
| reach_stop: "reachable c s \<Longrightarrow> reachable c (state_of (stop s))"
| reach_go: "reachable c s \<Longrightarrow> go c w s a = Some (out, r) \<Longrightarrow> reachable c (state_of out)"
| reach_handleMove: "reachable c s \<Longrightarrow> reachable c (state_of (handleMove owner p s))"
| reach_handleLeave: "reachable c s \<Longrightarrow> reachable c (state_of (handleLeave leaver s))"
| reach_follow: "reachable c s \<Longrightarrow> reachable c (state_of (follow w a s))"

text \<open>
  A controller that holds no path either has no destination or has its dirty flag set,
  so that the next acting tick computes the path.
\<close>

definition path_pending :: "'g pathfinder \<Rightarrow> bool" where
  "path_pending s \<longleftrightarrow> (path s = None \<longrightarrow> destination s = None \<or> moved s)"

subsection \<open>Concrete collaborators\<close>

text \<open>
  Inputs for evaluating the controller. The grid of \<open>line_collab\<close> has one cell per
  unit square and its state is the list of the calls made on it; the search walks
  along the x axis to the column of the goal; only the maps 0 to 2 have a file. The
  distance is the one along the axes, which is the Euclidean one on the x axis, where
  all the runs below stay. \<open>walled_collab\<close> is the same grid with no route between any
  two cells.
\<close>

definition line_collab :: "string list collab" where
  "line_collab = \<lparr>
     loadGrid = (\<lambda>m. if m \<le> 2 then Inr [] else Inl GridLoadError),
     nearest = (\<lambda>g x y. Some \<lparr> nx = \<lfloor>x\<rfloor>, ny = \<lfloor>y\<rfloor> \<rparr>),
     actual = (\<lambda>g x y. \<lparr> vx = of_int x, vy = of_int y \<rparr>),
     reset = (\<lambda>g. g @ [''reset'']),
     getShortestPath = (\<lambda>g a b.
       (case (a, b) of
          (Some p, Some q) \<Rightarrow> map (\<lambda>i. \<lparr> nx = i, ny = ny q \<rparr>) [nx p + 1 .. nx q]
        | _ \<Rightarrow> [], g @ [''search''])),
     hypot = (\<lambda>a b. \<bar>a\<bar> + \<bar>b\<bar>) \<rparr>"

definition walled_collab :: "string list collab" where
  "walled_collab = line_collab \<lparr> getShortestPath := (\<lambda>g a b. ([], g @ [''search''])) \<rparr>"

text \<open>The controlled player stands at \<open>(x, 0)\<close> on map 0; every move intent is accepted.\<close>

definition demo_world :: "real \<Rightarrow> world" where
  "demo_world x = \<lparr> room_map = Some 0, position = Some \<lparr> vx = x, vy = 0 \<rparr>, playerSpeed = 1,
     accepts_move = (\<lambda>_. True), resolvePlayer = (\<lambda>_. None) \<rparr>"

text \<open>
  A fresh controller that was sent to \<open>(x, 0)\<close> and has seen five ticks: the next tick
  is the first acting one.
\<close>

definition demo_state :: "real \<Rightarrow> string list pathfinder" where
  "demo_state x = (init \<lparr> recalculateEvery = None \<rparr>)
     \<lparr> tick := 5, moved := True, destination := Some \<lparr> vx = x, vy = 0 \<rparr> \<rparr>"

section \<open>Properties\<close>

subsection \<open>The parts of a tick\<close>

lemma ontick_gate_Proceed:
  assumes "ontick_gate c w s = Proceed s1"
  shows "(tick s + 1) mod MovementInterval = 0 \<and> tick s1 = tick s + 1
    \<and> (\<exists>g. grid s1 = Some g \<and> snode c w g \<noteq> None \<and> dnode c s1 g \<noteq> None)
    \<and> s1 = s\<lparr> tick := tick s + 1, grid := grid s1 \<rparr>
    \<and> position w \<noteq> None \<and> destination s \<noteq> None"
  using assms
  by (auto simp: ontick_gate_def ontick_cells_def Let_def snode_def dnode_def
      split: if_splits option.splits sum.splits)

lemma ontick_recalculate_returns:
  assumes "grid s = Some g"
  shows "\<exists>s' es. ontick_recalculate c w s = Returned s' es
    \<and> grid s' \<noteq> None \<and> path s' \<noteq> None
    \<and> tick s' = tick s \<and> paused s' = paused s \<and> destination s' = destination s
    \<and> following s' = following s \<and> config s' = config s
    \<and> (\<forall>e \<in> set es. \<exists>p. e = Emit (EngineRecalculate p))"
  using assms
  by (auto simp: ontick_recalculate_def recalculate_def must_recalculate_def Let_def
      split: prod.splits)


lemma ontick_unfold:
  assumes "ontick_gate c w s = Proceed s1"
    and "ontick_recalculate c w s1 = Returned s2 es"
  shows "ontick c w s = and_then (Returned s2 es) (ontick_consume c w)"
    and "grid s2 \<noteq> None" and "position w \<noteq> None" and "path s2 \<noteq> None"
    and "filter stop_or_end es = []" and "filter moves es = []"
proof -
  from ontick_gate_Proceed [OF assms(1)] obtain g where g: "grid s1 = Some g"
    and pos: "position w \<noteq> None" by blast
  from ontick_recalculate_returns [OF g, of c w] assms(2)
  have s2: "grid s2 \<noteq> None" "path s2 \<noteq> None"
    and es: "\<forall>e \<in> set es. \<exists>p. e = Emit (EngineRecalculate p)" by auto
  show "ontick c w s = and_then (Returned s2 es) (ontick_consume c w)"
    by (simp add: ontick_def assms)
  show "grid s2 \<noteq> None" "position w \<noteq> None" "path s2 \<noteq> None" using s2 pos by simp_all
  show "filter stop_or_end es = []" using es by (auto simp: filter_empty_conv)
  show "filter moves es = []" using es by (auto simp: filter_empty_conv)
qed

lemma snode_accepts [simp]: "snode c (w\<lparr> accepts_move := f \<rparr>) g = snode c w g"
  by (simp add: snode_def)

lemma ontick_cells_accepts [simp]:
  "ontick_cells c (w\<lparr> accepts_move := f \<rparr>) g s = ontick_cells c w g s"
  by (simp add: ontick_cells_def)

lemma ontick_gate_accepts: "ontick_gate c (w\<lparr> accepts_move := f \<rparr>) s = ontick_gate c w s"
  by (simp add: ontick_gate_def Let_def cong: option.case_cong sum.case_cong if_cong)

lemma recalculate_accepts: "recalculate c (w\<lparr> accepts_move := f \<rparr>) s = recalculate c w s"
  by (simp add: recalculate_def cong: option.case_cong)

lemma ontick_recalculate_accepts:
  "ontick_recalculate c (w\<lparr> accepts_move := f \<rparr>) s = ontick_recalculate c w s"
  by (simp add: ontick_recalculate_def recalculate_accepts)

lemma ontick_cells_idle:
  assumes "destination s = None \<or> position w = None"
  shows "ontick_cells c w g s = Done (Returned s [])"
  using assms by (auto simp: ontick_cells_def snode_def dnode_def)

lemma ontick_gate_idle:
  assumes "destination s = None \<or> position w = None"
  shows "ontick_gate c w s = Done
    (if (tick s + 1) mod MovementInterval \<noteq> 0 then Returned (s\<lparr> tick := tick s + 1 \<rparr>) []
     else case room_map w of
       None \<Rightarrow> Returned (s\<lparr> tick := tick s + 1 \<rparr>) []
     | Some m \<Rightarrow>
         (case grid s of
            Some g \<Rightarrow> Returned (s\<lparr> tick := tick s + 1 \<rparr>) []
          | None \<Rightarrow>
              (case loadGrid c m of
                 Inl e \<Rightarrow> Thrown e (s\<lparr> tick := tick s + 1 \<rparr>) []
               | Inr g \<Rightarrow> Returned (s\<lparr> tick := tick s + 1, grid := Some g \<rparr>) [])))"
proof -
  have a: "ontick_cells c w g (s\<lparr> tick := t \<rparr>) = Done (Returned (s\<lparr> tick := t \<rparr>) [])" for g t
    using assms by (intro ontick_cells_idle) simp
  have b: "ontick_cells c w g (s\<lparr> tick := t, grid := h \<rparr>)
      = Done (Returned (s\<lparr> tick := t, grid := h \<rparr>) [])" for g t h
    using assms by (intro ontick_cells_idle) simp
  show ?thesis
    by (simp add: ontick_gate_def Let_def a b split: option.split sum.split)
qed

lemma ontick_idle:
  assumes "destination s = None \<or> position w = None"
  shows "effects_of (ontick c w s) = []"
    and "state_of (ontick c w s) =
           s\<lparr> tick := tick s + 1, grid := grid (state_of (ontick c w s)) \<rparr>"
    and "grid (state_of (ontick c w s)) = grid s
         \<or> (tick s + 1) mod MovementInterval = 0 \<and> grid s = None
           \<and> (\<exists>m g. room_map w = Some m \<and> loadGrid c m = Inr g
                 \<and> grid (state_of (ontick c w s)) = Some g)"
  by (simp_all add: ontick_def ontick_gate_idle [OF assms] split: option.split sum.split)

lemma ontick_consume_returns:
  assumes "grid s \<noteq> None" "path s \<noteq> None" "position w \<noteq> None"
  shows "returns (ontick_consume c w s)"
  using assms
  by (auto simp: ontick_consume_def stop_reached_def Let_def split: list.splits)

lemma ontick_gate_Done:
  assumes "ontick_gate c w s = Done out"
  shows "returns out \<longleftrightarrow>
    \<not> ((tick s + 1) mod MovementInterval = 0 \<and> grid s = None
       \<and> (\<exists>m e. room_map w = Some m \<and> loadGrid c m = Inl e))"
  using assms
  by (auto simp: ontick_gate_def ontick_cells_def Let_def
      split: if_splits option.splits sum.splits)

lemma ontick_gate_load_fails:
  assumes "(tick s + 1) mod MovementInterval = 0" "grid s = None"
    "room_map w = Some m" "loadGrid c m = Inl e"
  shows "ontick_gate c w s = Done (Thrown e (s\<lparr> tick := tick s + 1 \<rparr>) [])"
  using assms by (simp add: ontick_gate_def Let_def)

lemma go_state:
  assumes "go c w s a = Some y"
  shows "state_of (fst y) = s \<or> (\<exists>v. fst y = go_to v s)"
proof (induct rule: go.raw_induct [OF _ assms])
  case (1 go' c w s a y)
  show ?case
  proof (cases "go_vector a")
    case (Some vec)
    with 1(2) show ?thesis by auto
  next
    case None
    show ?thesis
    proof (cases "\<exists>resolved. (\<forall>n. a \<noteq> Cell n) \<and> resolvePlayer w a = Some resolved \<and> spawned resolved")
      case True
      then obtain resolved where a: "\<forall>n. a \<noteq> Cell n" and r: "resolvePlayer w a = Some resolved"
        and sp: "spawned resolved" by blast
      have l: "go' c w s (Vec (transform_position resolved)) = Some y"
        using 1(2) None a r sp by (cases a) auto
      from 1(1) [OF l] show ?thesis .
    next
      case False
      with 1(2) None show ?thesis by (cases a) (auto split: option.splits if_splits)
    qed
  qed
qed

lemma ontick_consume_pending:
  assumes "path s \<noteq> None"
  shows "path_pending (state_of (ontick_consume c w s))"
  using assms
  by (auto simp: path_pending_def ontick_consume_def stop_reached_def Let_def
      split: list.splits option.splits)

lemma state_of_and_then_Returned:
  "state_of (and_then (Returned s es) f) = state_of (f s)"
  by (cases "f s") simp_all

lemma ontick_gate_Done_state:
  assumes "ontick_gate c w s = Done out"
  shows "destination (state_of out) = destination s \<and> path (state_of out) = path s
    \<and> moved (state_of out) = moved s"
  using assms
  by (auto simp: ontick_gate_def ontick_cells_def Let_def
      split: if_splits option.splits sum.splits)

lemma ontick_pending:
  assumes "path_pending s"
  shows "path_pending (state_of (ontick c w s))"
proof (cases "ontick_gate c w s")
  case (Done out)
  from ontick_gate_Done_state [OF Done] assms show ?thesis
    by (simp add: ontick_def Done path_pending_def)
next
  case (Proceed s1)
  from ontick_gate_Proceed [OF Proceed] obtain g where g: "grid s1 = Some g" by blast
  from ontick_recalculate_returns [OF g, of c w] obtain s2 es
    where r: "ontick_recalculate c w s1 = Returned s2 es" by blast
  note u = ontick_unfold [OF Proceed r]
  from ontick_consume_pending [OF u(4)] show ?thesis
    by (simp only: u(1) state_of_and_then_Returned)
qed

lemma reachable_pending:
  assumes "reachable c s"
  shows "path_pending s"
  using assms
proof (induction rule: reachable.induct)
  case (reach_init cfg)
  show ?case by (simp add: path_pending_def init_def)
next
  case (reach_ontick s w)
  then show ?case by (simp add: ontick_pending)
next
  case (reach_recalculate s w)
  then show ?case
    by (auto simp: path_pending_def recalculate_def Let_def split: option.splits prod.splits)
next
  case (reach_pause s)
  then show ?case by (simp add: path_pending_def pause_def)
next
  case (reach_start s)
  then show ?case by (simp add: path_pending_def start_def)
next
  case (reach_stop s)
  then show ?case by (simp add: path_pending_def stop_def stop_reached_def)
next
  case (reach_go s w a out r)
  from go_state [OF reach_go(2)] reach_go(3) show ?case
    by (auto simp: path_pending_def go_to_def start_def)
next
  case (reach_handleMove s owner p)
  then show ?case by (simp add: path_pending_def handleMove_def)
next
  case (reach_handleLeave s leaver)
  then show ?case by (simp add: path_pending_def handleLeave_def stop_reached_def)
next
  case (reach_follow s w a)
  then show ?case by (simp add: path_pending_def follow_def split: option.splits)
qed

lemma consumed_tick_pairs:
  assumes "ontick_gate c w s = Proceed s1" and "\<not> paused s"
  shows "(destination (state_of (ontick c w s)) \<noteq> None \<longrightarrow>
           (\<exists>p. path (state_of (ontick c w s)) = Some p \<and> p \<noteq> []))
       \<and> (path (state_of (ontick c w s)) = None \<longrightarrow>
           destination (state_of (ontick c w s)) = None)"
proof -
  from ontick_gate_Proceed [OF assms(1)] obtain g where g: "grid s1 = Some g"
    and s1: "s1 = s\<lparr> tick := tick s + 1, grid := grid s1 \<rparr>" by blast
  from arg_cong [OF s1, of paused] assms(2) have p1: "\<not> paused s1" by simp
  from ontick_recalculate_returns [OF g, of c w] obtain s2 es
    where r: "ontick_recalculate c w s1 = Returned s2 es" and p2: "paused s2 = paused s1"
    by blast
  note u = ontick_unfold [OF assms(1) r]
  from u(2) obtain g2 where g2: "grid s2 = Some g2" by auto
  from u(3) obtain me where me: "position w = Some me" by auto
  from u(4) obtain ns where ns: "path s2 = Some ns" by auto
  show ?thesis
    using p1 p2 g2 me ns
    by (cases ns) (simp_all add: u(1) ontick_consume_def stop_reached_def Let_def)
qed

lemma reachable_idle_ticks: "reachable c ((init cfg)\<lparr> tick := n \<rparr>)"
proof (induction n)
  case 0
  have "(init cfg :: 'a pathfinder)\<lparr> tick := 0 \<rparr> = init cfg" by (simp add: init_def)
  with reach_init [of c cfg] show ?case by simp
next
  case (Suc n)
  let ?w = "\<lparr> room_map = None, position = None, playerSpeed = 0,
     accepts_move = (\<lambda>_. True), resolvePlayer = (\<lambda>_. None) \<rparr>"
  have "state_of (ontick c ?w ((init cfg)\<lparr> tick := n \<rparr>)) = (init cfg)\<lparr> tick := Suc n \<rparr>"
    by (simp add: ontick_def ontick_gate_def Let_def)
  with reach_ontick [OF Suc, of ?w] show ?case by simp
qed

lemma reachable_go_to:
  assumes "reachable c s" and "vx v \<noteq> 0"
  shows "reachable c (state_of (go_to v s))"
proof -
  let ?w = "\<lparr> room_map = None, position = None, playerSpeed = 0,
     accepts_move = (\<lambda>_. True), resolvePlayer = (\<lambda>_. None) \<rparr>"
  have "go c ?w s (Vec v) = Some (go_to v s, None)"
    using assms(2) by (simp add: go.simps go_vector_def)
  from reach_go [OF assms(1) this] show ?thesis .
qed

subsection \<open>Arrival\<close>

text \<open>
  C1, as the code has it. On the tick in which the last cell of the path is shifted off
  (the controller is not paused and the path held after the recalculation step is a
  single cell), the handler returns and clears the destination, and the tick emits
  exactly one stop notification, with \<open>reached = true\<close>, and exactly one end
  notification, the two last effects of the tick in this order. The path is not
  cleared: \<^verbatim>\<open>_stop\<close> does not write it, so the controller goes on holding the array the
  shift has emptied, on that tick and on the tick after it, whatever the world
  answers. No other field changes after the recalculation step.
\<close>

theorem arrival_stops_once:
  assumes "ontick_gate c w s = Proceed s1"
    and "ontick_recalculate c w s1 = Returned s2 es"
    and "\<not> paused s2"
    and "path s2 = Some [n]"
  shows "returns (ontick c w s)
    \<and> state_of (ontick c w s) = s2\<lparr> destination := None, path := Some [] \<rparr>
    \<and> filter stop_or_end (effects_of (ontick c w s)) =
        [Emit (PathfindingStop True), Emit PathfindingEnd]
    \<and> (\<exists>before. effects_of (ontick c w s) =
          before @ [Emit (PathfindingStop True), Emit PathfindingEnd])
    \<and> path (state_of (ontick c w s)) \<noteq> None
    \<and> path (state_of (ontick c w' (state_of (ontick c w s)))) = Some []
    \<and> effects_of (ontick c w' (state_of (ontick c w s))) = []"
proof -
  note u = ontick_unfold [OF assms(1,2)]
  from u(2) obtain g where g: "grid s2 = Some g" by auto
  from u(3) obtain me where me: "position w = Some me" by auto
  let ?s' = "s2\<lparr> destination := None, path := Some [] \<rparr>"
  have 1: "returns (ontick c w s)
    \<and> state_of (ontick c w s) = ?s'
    \<and> filter stop_or_end (effects_of (ontick c w s)) =
        [Emit (PathfindingStop True), Emit PathfindingEnd]
    \<and> (\<exists>before. effects_of (ontick c w s) =
          before @ [Emit (PathfindingStop True), Emit PathfindingEnd])"
    using assms(3,4) g me u(5)
    by (simp add: u(1) ontick_consume_def stop_reached_def Let_def)
  have idle: "destination ?s' = None \<or> position w' = None" by simp
  from arg_cong [OF ontick_idle(2) [OF idle, of c], of path]
  have 2: "path (state_of (ontick c w' ?s')) = Some []" by simp
  from ontick_idle(1) [OF idle, of c]
  have 3: "effects_of (ontick c w' ?s') = []" .
  from 1 2 3 show ?thesis by simp
qed

theorem arrival_stops_once_witness:
  "ontick_gate line_collab (demo_world 2) (demo_state 3) =
     Proceed ((demo_state 3)\<lparr> tick := 6, grid := Some [] \<rparr>)
   \<and> ontick_recalculate line_collab (demo_world 2) ((demo_state 3)\<lparr> tick := 6, grid := Some [] \<rparr>) =
     Returned ((demo_state 3)\<lparr> tick := 6, moved := False, grid := Some [''reset'', ''search''],
                 path := Some [\<lparr> nx = 3, ny = 0 \<rparr>] \<rparr>)
       [Emit (EngineRecalculate [\<lparr> vx = 3, vy = 0 \<rparr>])]
   \<and> destination (state_of (ontick line_collab (demo_world 2) (demo_state 3))) = None
   \<and> path (state_of (ontick line_collab (demo_world 2) (demo_state 3))) = Some []
   \<and> filter stop_or_end (effects_of (ontick line_collab (demo_world 2) (demo_state 3))) =
       [Emit (PathfindingStop True), Emit PathfindingEnd]"
proof -
  let ?s1 = "(demo_state 3)\<lparr> tick := 6, grid := Some [] \<rparr>"
  let ?s2 = "(demo_state 3)\<lparr> tick := 6, moved := False, grid := Some [''reset'', ''search''],
                 path := Some [\<lparr> nx = 3, ny = 0 \<rparr>] \<rparr>"
  have g: "ontick_gate line_collab (demo_world 2) (demo_state 3) = Proceed ?s1"
    by (simp add: ontick_gate_def ontick_cells_def snode_def dnode_def MovementInterval_def
        line_collab_def demo_world_def demo_state_def init_def)
  have r: "ontick_recalculate line_collab (demo_world 2) ?s1 =
      Returned ?s2 [Emit (EngineRecalculate [\<lparr> vx = 3, vy = 0 \<rparr>])]"
    by (simp add: ontick_recalculate_def must_recalculate_def recalculate_def snode_def
        dnode_def line_collab_def demo_world_def demo_state_def init_def)
  have p: "\<not> paused ?s2" by (simp add: demo_state_def init_def)
  have q: "path ?s2 = Some [\<lparr> nx = 3, ny = 0 \<rparr>]" by simp
  from arrival_stops_once [OF g r p q, of "demo_world 2"] g r show ?thesis by simp
qed

theorem arrival_leaves_path_held_counterexample:
  "ontick line_collab (demo_world 2) (demo_state 3) =
     Returned \<lparr> tick = 6, moved = False, paused = False, destination = None,
                grid = Some [''reset'', ''search''], path = Some [], following = None,
                config = \<lparr> recalculateEvery = None \<rparr> \<rparr>
       [Emit (EngineRecalculate [\<lparr> vx = 3, vy = 0 \<rparr>]),
        Emit (EngineMove \<lparr> vx = 3, vy = 0 \<rparr>),
        TransformMove \<lparr> vx = 3, vy = 0 \<rparr> \<lparr> vx = 1, vy = 1 \<rparr>,
        Emit (PathfindingStop True), Emit PathfindingEnd]
   \<and> path (state_of (ontick line_collab (demo_world 2) (demo_state 3))) \<noteq> None"
  by (simp add: ontick_def ontick_gate_def ontick_cells_def ontick_recalculate_def
        must_recalculate_def recalculate_def ontick_consume_def stop_reached_def snode_def dnode_def
        MovementInterval_def line_collab_def demo_world_def demo_state_def init_def Let_def)

subsection \<open>A rejected move intent\<close>

text \<open>
  C6. On an acting tick that reaches the consumption step with a non-empty path, when
  the consumer rejects the move intent, the actuator is not called in that tick, the
  first cell of the path is shifted off all the same, and the controller is left in
  the very state an accepted intent leaves it in: the fields of the state after the
  recalculation step, with the path shortened, and the destination cleared (with the
  stop and end notifications) when that cell was the last one.
\<close>

theorem rejected_move_still_pops:
  assumes "ontick_gate c w s = Proceed s1"
    and "ontick_recalculate c w s1 = Returned s2 es"
    and "\<not> paused s2"
    and "path s2 = Some (n # rest)"
    and "grid s2 = Some g"
    and "\<not> accepts_move w (actual c g (nx n) (ny n))"
  shows "ontick c w s =
      Returned (s2\<lparr> destination := (if rest = [] then None else destination s2),
                    path := Some rest \<rparr>)
        (es @ Emit (EngineMove (actual c g (nx n) (ny n))) #
           (if rest = [] then [Emit (PathfindingStop True), Emit PathfindingEnd] else []))
    \<and> (\<forall>p v. TransformMove p v \<notin> set (effects_of (ontick c w s)))
    \<and> state_of (ontick c w s) = state_of (ontick c (w\<lparr> accepts_move := (\<lambda>_. True) \<rparr>) s)"
proof -
  note u = ontick_unfold [OF assms(1,2)]
  from u(3) obtain me where me: "position w = Some me" by auto
  let ?w = "w\<lparr> accepts_move := (\<lambda>_. True) \<rparr>"
  have gate: "ontick_gate c ?w s = Proceed s1"
    using assms(1) by (simp add: ontick_gate_accepts)
  have rec: "ontick_recalculate c ?w s1 = Returned s2 es"
    using assms(2) by (simp add: ontick_recalculate_accepts)
  note u' = ontick_unfold [OF gate rec]
  have 1: "ontick c w s =
      Returned (s2\<lparr> destination := (if rest = [] then None else destination s2),
                    path := Some rest \<rparr>)
        (es @ Emit (EngineMove (actual c g (nx n) (ny n))) #
           (if rest = [] then [Emit (PathfindingStop True), Emit PathfindingEnd] else []))"
    using assms(3-6) me
    by (simp add: u(1) ontick_consume_def stop_reached_def Let_def)
  have 2: "\<forall>p v. TransformMove p v \<notin> set (effects_of (ontick c w s))"
    using u(6) by (auto simp: 1 filter_empty_conv)
  have 3: "state_of (ontick c ?w s) =
      s2\<lparr> destination := (if rest = [] then None else destination s2), path := Some rest \<rparr>"
    using assms(3-5) me
    by (simp add: u'(1) ontick_consume_def stop_reached_def Let_def)
  show ?thesis using 1 2 3 by simp
qed

theorem rejected_move_still_pops_witness:
  "ontick_gate line_collab ((demo_world 2)\<lparr> accepts_move := (\<lambda>_. False) \<rparr>) (demo_state 4) =
     Proceed ((demo_state 4)\<lparr> tick := 6, grid := Some [] \<rparr>)
   \<and> ontick line_collab ((demo_world 2)\<lparr> accepts_move := (\<lambda>_. False) \<rparr>) (demo_state 4) =
     Returned ((demo_state 4)\<lparr> tick := 6, moved := False, grid := Some [''reset'', ''search''],
                 path := Some [\<lparr> nx = 4, ny = 0 \<rparr>] \<rparr>)
       [Emit (EngineRecalculate [\<lparr> vx = 3, vy = 0 \<rparr>, \<lparr> vx = 4, vy = 0 \<rparr>]),
        Emit (EngineMove \<lparr> vx = 3, vy = 0 \<rparr>)]"
proof -
  let ?w = "(demo_world 2)\<lparr> accepts_move := (\<lambda>_. False) \<rparr>"
  let ?s1 = "(demo_state 4)\<lparr> tick := 6, grid := Some [] \<rparr>"
  let ?s2 = "(demo_state 4)\<lparr> tick := 6, moved := False, grid := Some [''reset'', ''search''],
                 path := Some [\<lparr> nx = 3, ny = 0 \<rparr>, \<lparr> nx = 4, ny = 0 \<rparr>] \<rparr>"
  have g: "ontick_gate line_collab ?w (demo_state 4) = Proceed ?s1"
    by (simp add: ontick_gate_def ontick_cells_def snode_def dnode_def MovementInterval_def
        line_collab_def demo_world_def demo_state_def init_def)
  have r: "ontick_recalculate line_collab ?w ?s1 =
      Returned ?s2 [Emit (EngineRecalculate [\<lparr> vx = 3, vy = 0 \<rparr>, \<lparr> vx = 4, vy = 0 \<rparr>])]"
    by (simp add: ontick_recalculate_def must_recalculate_def recalculate_def snode_def
        dnode_def line_collab_def demo_world_def demo_state_def init_def)
  have p: "\<not> paused ?s2" by (simp add: demo_state_def init_def)
  have q: "path ?s2 = Some [\<lparr> nx = 3, ny = 0 \<rparr>, \<lparr> nx = 4, ny = 0 \<rparr>]" by simp
  have h: "grid ?s2 = Some [''reset'', ''search'']" by simp
  have a: "\<not> accepts_move ?w (actual line_collab [''reset'', ''search'']
      (nx \<lparr> nx = 3, ny = 0 \<rparr>) (ny \<lparr> nx = 3, ny = 0 \<rparr>))" by simp
  from rejected_move_still_pops [OF g r p q h a] g show ?thesis
    by (simp add: line_collab_def demo_state_def init_def)
qed

subsection \<open>Pause\<close>

text \<open>
  C7, as the code has it. While the pause flag is set the move intent is not the only
  step suppressed: on an acting tick of a paused controller that has a position and a
  destination, everything after the recalculation step is skipped, that is the shift of
  the path, the move intent, the call of the actuator, the arrival with its stop and
  end notifications, and the clearing on an empty path. The tick is the recalculation
  step and nothing more: the handler returns, the controller stays paused and keeps
  its destination. When a recalculation trigger holds the tick emits exactly the
  recalculate notification, carrying the new path in world coordinates, and holds that
  path unshortened; when none holds the tick only increments the counter.
\<close>

theorem paused_tick_recalculates_only:
  assumes "ontick_gate c w s = Proceed s1"
    and "paused s1"
  shows "ontick c w s = ontick_recalculate c w s1
    \<and> returns (ontick c w s)
    \<and> paused (state_of (ontick c w s))
    \<and> filter moves (effects_of (ontick c w s)) = []
    \<and> filter stop_or_end (effects_of (ontick c w s)) = []
    \<and> (must_recalculate s1 \<longrightarrow>
          (\<exists>p. path (state_of (ontick c w s)) = Some p
             \<and> effects_of (ontick c w s) =
                 [Emit (EngineRecalculate
                    (map (\<lambda>n. actual c (the (grid (state_of (ontick c w s)))) (nx n) (ny n)) p))]))
    \<and> (\<not> must_recalculate s1 \<longrightarrow> ontick c w s = Returned s1 [])
    \<and> destination (state_of (ontick c w s)) = destination s
    \<and> destination s \<noteq> None"
proof -
  from ontick_gate_Proceed [OF assms(1)] obtain g where g: "grid s1 = Some g"
    and s1: "s1 = s\<lparr> tick := tick s + 1, grid := grid s1 \<rparr>"
    and d: "destination s \<noteq> None" by blast
  from arg_cong [OF s1, of destination] have d1: "destination s1 = destination s" by simp
  from ontick_recalculate_returns [OF g, of c w] obtain s2 es
    where r: "ontick_recalculate c w s1 = Returned s2 es" and p: "paused s2 = paused s1"
      and d2: "destination s2 = destination s1"
    by blast
  note u = ontick_unfold [OF assms(1) r]
  have 1: "ontick c w s = Returned s2 es"
    using assms(2) p by (simp add: u(1) ontick_consume_def)
  have 2: "must_recalculate s1 \<longrightarrow>
          (\<exists>p. path s2 = Some p
             \<and> es = [Emit (EngineRecalculate (map (\<lambda>n. actual c (the (grid s2)) (nx n) (ny n)) p))])"
    using r g by (auto simp: ontick_recalculate_def recalculate_def Let_def split: prod.splits)
  have 3: "\<not> must_recalculate s1 \<longrightarrow> Returned s2 es = Returned s1 []"
    using r by (auto simp: ontick_recalculate_def)
  show ?thesis using 1 2 3 r u(5,6) assms(2) p d d1 d2 by auto
qed

theorem paused_tick_recalculates_only_witness:
  "ontick_gate line_collab (demo_world 2) ((demo_state 4)\<lparr> paused := True \<rparr>) =
     Proceed ((demo_state 4)\<lparr> tick := 6, paused := True, grid := Some [] \<rparr>)
   \<and> paused ((demo_state 4)\<lparr> tick := 6, paused := True, grid := Some [] \<rparr>)
   \<and> must_recalculate ((demo_state 4)\<lparr> tick := 6, paused := True, grid := Some [] \<rparr>)
   \<and> ontick line_collab (demo_world 2) ((demo_state 4)\<lparr> paused := True \<rparr>) =
     Returned ((demo_state 4)\<lparr> tick := 6, moved := False, paused := True,
                 grid := Some [''reset'', ''search''],
                 path := Some [\<lparr> nx = 3, ny = 0 \<rparr>, \<lparr> nx = 4, ny = 0 \<rparr>] \<rparr>)
       [Emit (EngineRecalculate [\<lparr> vx = 3, vy = 0 \<rparr>, \<lparr> vx = 4, vy = 0 \<rparr>])]"
proof -
  let ?s = "(demo_state 4)\<lparr> paused := True \<rparr>"
  let ?s1 = "(demo_state 4)\<lparr> tick := 6, paused := True, grid := Some [] \<rparr>"
  have g: "ontick_gate line_collab (demo_world 2) ?s = Proceed ?s1"
    by (simp add: ontick_gate_def ontick_cells_def snode_def dnode_def MovementInterval_def
        line_collab_def demo_world_def demo_state_def init_def)
  have p: "paused ?s1" by simp
  have m: "must_recalculate ?s1" by (simp add: must_recalculate_def demo_state_def init_def)
  have r: "ontick_recalculate line_collab (demo_world 2) ?s1 =
      Returned ((demo_state 4)\<lparr> tick := 6, moved := False, paused := True,
                 grid := Some [''reset'', ''search''],
                 path := Some [\<lparr> nx = 3, ny = 0 \<rparr>, \<lparr> nx = 4, ny = 0 \<rparr>] \<rparr>)
       [Emit (EngineRecalculate [\<lparr> vx = 3, vy = 0 \<rparr>, \<lparr> vx = 4, vy = 0 \<rparr>])]"
    by (simp add: ontick_recalculate_def must_recalculate_def recalculate_def snode_def
        dnode_def line_collab_def demo_world_def demo_state_def init_def)
  from paused_tick_recalculates_only [OF g p] g p m r show ?thesis by simp
qed

theorem paused_tick_skips_shift_and_arrival_counterexample:
  "ontick line_collab (demo_world 2) ((demo_state 3)\<lparr> paused := True \<rparr>) =
     Returned \<lparr> tick = 6, moved = False, paused = True,
                destination = Some \<lparr> vx = 3, vy = 0 \<rparr>,
                grid = Some [''reset'', ''search''], path = Some [\<lparr> nx = 3, ny = 0 \<rparr>],
                following = None, config = \<lparr> recalculateEvery = None \<rparr> \<rparr>
       [Emit (EngineRecalculate [\<lparr> vx = 3, vy = 0 \<rparr>])]
   \<and> ontick line_collab (demo_world 2) (demo_state 3) =
     Returned \<lparr> tick = 6, moved = False, paused = False, destination = None,
                grid = Some [''reset'', ''search''], path = Some [], following = None,
                config = \<lparr> recalculateEvery = None \<rparr> \<rparr>
       [Emit (EngineRecalculate [\<lparr> vx = 3, vy = 0 \<rparr>]),
        Emit (EngineMove \<lparr> vx = 3, vy = 0 \<rparr>),
        TransformMove \<lparr> vx = 3, vy = 0 \<rparr> \<lparr> vx = 1, vy = 1 \<rparr>,
        Emit (PathfindingStop True), Emit PathfindingEnd]
   \<and> path (state_of (ontick line_collab (demo_world 2) ((demo_state 3)\<lparr> paused := True \<rparr>))) \<noteq>
       path (state_of (ontick line_collab (demo_world 2) (demo_state 3)))
   \<and> filter stop_or_end
        (effects_of (ontick line_collab (demo_world 2) ((demo_state 3)\<lparr> paused := True \<rparr>))) \<noteq>
       filter stop_or_end (effects_of (ontick line_collab (demo_world 2) (demo_state 3)))"
  by (simp add: ontick_def ontick_gate_def ontick_cells_def ontick_recalculate_def
        must_recalculate_def recalculate_def ontick_consume_def stop_reached_def snode_def dnode_def
        MovementInterval_def line_collab_def demo_world_def demo_state_def init_def Let_def)

subsection \<open>Resuming\<close>

text \<open>
  C10. Every call of \<^verbatim>\<open>start()\<close> returns, clears the pause flag and emits exactly one
  start notification, which carries the destination held at the call: \<open>None\<close> (null)
  when no destination is set. The destination, the path and the dirty flag, and every
  other field, are left as they were.
\<close>

theorem start_resumes:
  "returns (start s)
   \<and> paused (state_of (start s)) = False
   \<and> effects_of (start s) = [Emit (PathfindingStart (destination s))]
   \<and> effects_of (start (s\<lparr> destination := None \<rparr>)) = [Emit (PathfindingStart None)]
   \<and> destination (state_of (start s)) = destination s
   \<and> path (state_of (start s)) = path s
   \<and> moved (state_of (start s)) = moved s
   \<and> state_of (start s) = s\<lparr> paused := False \<rparr>"
  by (simp add: start_def)

subsection \<open>An empty path\<close>

text \<open>
  C2, as the code has it. When the path held after the recalculation step is empty (the
  search found no route, or the controller stands on the goal cell) and the controller
  is not paused, that same tick shifts nothing, emits no move intent and no stop or
  end notification, and clears both the destination and the path; the tick after it,
  whatever the world answers, emits nothing and leaves both absent, so no
  recalculation follows. When the controller is paused the tick keeps the destination
  and holds the empty path, which is a path: the no-path trigger is \<open>path = None\<close>
  only.
\<close>

theorem empty_path_abandons_destination:
  assumes "ontick_gate c w s = Proceed s1"
    and "ontick_recalculate c w s1 = Returned s2 es"
    and "path s2 = Some []"
  shows "ontick c w s =
      Returned (if paused s2 then s2 else s2\<lparr> destination := None, path := None \<rparr>) es
    \<and> filter moves (effects_of (ontick c w s)) = []
    \<and> filter stop_or_end (effects_of (ontick c w s)) = []
    \<and> (\<not> paused s2 \<longrightarrow>
          effects_of (ontick c w' (state_of (ontick c w s))) = []
        \<and> destination (state_of (ontick c w' (state_of (ontick c w s)))) = None
        \<and> path (state_of (ontick c w' (state_of (ontick c w s)))) = None)
    \<and> (paused s2 \<longrightarrow>
          destination (state_of (ontick c w s)) = destination s
        \<and> destination s \<noteq> None
        \<and> path (state_of (ontick c w s)) \<noteq> None)"
proof -
  note u = ontick_unfold [OF assms(1,2)]
  let ?s' = "if paused s2 then s2 else s2\<lparr> destination := None, path := None \<rparr>"
  have 1: "ontick c w s = Returned ?s' es"
    using assms(3) by (simp add: u(1) ontick_consume_def)
  have 2: "filter moves (effects_of (ontick c w s)) = []"
    and 3: "filter stop_or_end (effects_of (ontick c w s)) = []"
    using u(5,6) by (simp_all add: 1)
  have 4: "effects_of (ontick c w' ?s') = []
        \<and> destination (state_of (ontick c w' ?s')) = None
        \<and> path (state_of (ontick c w' ?s')) = None" if "\<not> paused s2"
  proof -
    have idle: "destination ?s' = None \<or> position w' = None" using that by simp
    from arg_cong [OF ontick_idle(2) [OF idle, of c], of destination]
    have d: "destination (state_of (ontick c w' ?s')) = None" using that by simp
    from arg_cong [OF ontick_idle(2) [OF idle, of c], of path]
    have p: "path (state_of (ontick c w' ?s')) = None" using that by simp
    from ontick_idle(1) [OF idle, of c] d p show ?thesis by simp
  qed
  from ontick_gate_Proceed [OF assms(1)] obtain g where g: "grid s1 = Some g"
    and s1: "s1 = s\<lparr> tick := tick s + 1, grid := grid s1 \<rparr>"
    and d: "destination s \<noteq> None" by blast
  from arg_cong [OF s1, of destination] have d1: "destination s1 = destination s" by simp
  from ontick_recalculate_returns [OF g, of c w] assms(2)
  have d2: "destination s2 = destination s1" by auto
  have 5: "destination (state_of (ontick c w s)) = destination s
        \<and> destination s \<noteq> None \<and> path (state_of (ontick c w s)) \<noteq> None" if "paused s2"
    using that d d1 d2 assms(3) by (simp add: 1)
  show ?thesis using 1 2 3 4 5 by simp
qed

theorem empty_path_abandons_destination_witness:
  "ontick_gate walled_collab (demo_world 2) (demo_state 3) =
     Proceed ((demo_state 3)\<lparr> tick := 6, grid := Some [] \<rparr>)
   \<and> ontick_recalculate walled_collab (demo_world 2) ((demo_state 3)\<lparr> tick := 6, grid := Some [] \<rparr>) =
     Returned ((demo_state 3)\<lparr> tick := 6, moved := False, grid := Some [''reset'', ''search''],
                 path := Some [] \<rparr>) [Emit (EngineRecalculate [])]
   \<and> ontick walled_collab (demo_world 2) (demo_state 3) =
     Returned ((demo_state 3)\<lparr> tick := 6, moved := False, destination := None,
                 grid := Some [''reset'', ''search''], path := None \<rparr>)
       [Emit (EngineRecalculate [])]
   \<and> effects_of (ontick walled_collab (demo_world 2)
        (state_of (ontick walled_collab (demo_world 2) (demo_state 3)))) = []"
proof -
  let ?s1 = "(demo_state 3)\<lparr> tick := 6, grid := Some [] \<rparr>"
  let ?s2 = "(demo_state 3)\<lparr> tick := 6, moved := False, grid := Some [''reset'', ''search''],
                 path := Some [] \<rparr>"
  have g: "ontick_gate walled_collab (demo_world 2) (demo_state 3) = Proceed ?s1"
    by (simp add: ontick_gate_def ontick_cells_def snode_def dnode_def MovementInterval_def
        walled_collab_def line_collab_def demo_world_def demo_state_def init_def)
  have r: "ontick_recalculate walled_collab (demo_world 2) ?s1 =
      Returned ?s2 [Emit (EngineRecalculate [])]"
    by (simp add: ontick_recalculate_def must_recalculate_def recalculate_def snode_def
        dnode_def walled_collab_def line_collab_def demo_world_def demo_state_def init_def)
  have q: "path ?s2 = Some []" by simp
  have p: "\<not> paused ?s2" by (simp add: demo_state_def init_def)
  from empty_path_abandons_destination [OF g r q, of "demo_world 2"] g r p show ?thesis
    by (simp add: demo_state_def init_def)
      (simp add: ontick_def ontick_gate_def ontick_cells_def dnode_def MovementInterval_def)
qed

theorem empty_path_keeps_destination_counterexample:
  "destination (demo_state 3) = Some \<lparr> vx = 3, vy = 0 \<rparr>
   \<and> ontick walled_collab (demo_world 2) (demo_state 3) =
     Returned \<lparr> tick = 6, moved = False, paused = False, destination = None,
                grid = Some [''reset'', ''search''], path = None, following = None,
                config = \<lparr> recalculateEvery = None \<rparr> \<rparr>
       [Emit (EngineRecalculate [])]
   \<and> destination (state_of (ontick walled_collab (demo_world 2) (demo_state 3))) \<noteq>
       destination (demo_state 3)"
  by (simp add: walled_collab_def ontick_def ontick_gate_def ontick_cells_def ontick_recalculate_def
        must_recalculate_def recalculate_def ontick_consume_def stop_reached_def snode_def dnode_def
        MovementInterval_def line_collab_def demo_world_def demo_state_def init_def Let_def)

subsection \<open>Recalculation\<close>




subsection \<open>go\<close>

text \<open>
  C4. The claim fails on the code at a destination whose x coordinate is 0 and at a
  cell. \<^verbatim>\<open>go\<close> tells a vector from the other arguments by the truthiness of \<^verbatim>\<open>vec.x\<close>:
  on the position \<open>(0, 5)\<close> a fresh controller, in a room that resolves no player,
  returns with no destination set, the dirty flag unset and nothing emitted. On the
  cell \<open>(0, 5)\<close> a controller with a loaded grid returns the world position of the cell
  and likewise sets and emits nothing.
\<close>

theorem go_drops_zero_x_and_cells:
  "go line_collab (demo_world 2) (init \<lparr> recalculateEvery = None \<rparr>) (Vec \<lparr> vx = 0, vy = 5 \<rparr>) =
     Some (Returned (init \<lparr> recalculateEvery = None \<rparr>) [], None)
   \<and> destination (init \<lparr> recalculateEvery = None \<rparr> :: string list pathfinder) = None
   \<and> \<not> moved (init \<lparr> recalculateEvery = None \<rparr> :: string list pathfinder)
   \<and> go line_collab (demo_world 2) ((init \<lparr> recalculateEvery = None \<rparr>)\<lparr> grid := Some [] \<rparr>)
        (Cell \<lparr> nx = 0, ny = 5 \<rparr>) =
     Some (Returned ((init \<lparr> recalculateEvery = None \<rparr>)\<lparr> grid := Some [] \<rparr>) [],
           Some \<lparr> vx = 0, vy = 5 \<rparr>)"
  by (simp add: go.simps go_vector_def demo_world_def line_collab_def init_def)

subsection \<open>Destination and path\<close>

text \<open>
  C5, as the code has it. In every reachable state a missing path comes with a missing
  destination or with the dirty flag set. At the end of an acting tick that ran the
  consumption step (position and destination at hand, not paused), a destination that
  is still held comes with a held, non-empty path, and a missing path comes with a
  missing destination. Between ticks the two are not tied: \<^verbatim>\<open>go\<close> sets a destination
  before any path exists, and arrival and \<^verbatim>\<open>stop\<close> null the destination and keep the
  path.
\<close>

theorem missing_path_is_pending:
  assumes "reachable c s"
  shows "(path s = None \<longrightarrow> destination s = None \<or> moved s)
    \<and> (ontick_gate c w s = Proceed s1 \<and> \<not> paused s \<longrightarrow>
         (destination (state_of (ontick c w s)) \<noteq> None \<longrightarrow>
            (\<exists>p. path (state_of (ontick c w s)) = Some p \<and> p \<noteq> []))
       \<and> (path (state_of (ontick c w s)) = None \<longrightarrow>
            destination (state_of (ontick c w s)) = None))"
proof (intro conjI impI)
  assume "path s = None"
  with reachable_pending [OF assms] show "destination s = None \<or> moved s"
    by (simp add: path_pending_def)
next
  assume a: "ontick_gate c w s = Proceed s1 \<and> \<not> paused s"
  then have g: "ontick_gate c w s = Proceed s1" and p: "\<not> paused s" by simp_all
  note pairs = consumed_tick_pairs [OF g p]
  {
    assume "destination (state_of (ontick c w s)) \<noteq> None"
    with pairs show "\<exists>p. path (state_of (ontick c w s)) = Some p \<and> p \<noteq> []" by blast
  }
  {
    assume "path (state_of (ontick c w s)) = None"
    with pairs show "destination (state_of (ontick c w s)) = None" by blast
  }
qed

theorem missing_path_is_pending_witness:
  "reachable line_collab (state_of (go_to \<lparr> vx = 4, vy = 0 \<rparr>
      ((init \<lparr> recalculateEvery = None \<rparr>)\<lparr> tick := 5 \<rparr>)))
   \<and> path (state_of (go_to \<lparr> vx = 4, vy = 0 \<rparr>
      ((init \<lparr> recalculateEvery = None \<rparr>)\<lparr> tick := 5 \<rparr>)) :: string list pathfinder) = None
   \<and> moved (state_of (go_to \<lparr> vx = 4, vy = 0 \<rparr>
      ((init \<lparr> recalculateEvery = None \<rparr>)\<lparr> tick := 5 \<rparr>)) :: string list pathfinder)
   \<and> ontick_gate line_collab (demo_world 2) (state_of (go_to \<lparr> vx = 4, vy = 0 \<rparr>
      ((init \<lparr> recalculateEvery = None \<rparr>)\<lparr> tick := 5 \<rparr>))) =
      Proceed ((demo_state 4)\<lparr> tick := 6, grid := Some [] \<rparr>)
   \<and> destination (state_of (ontick line_collab (demo_world 2) (state_of (go_to \<lparr> vx = 4, vy = 0 \<rparr>
      ((init \<lparr> recalculateEvery = None \<rparr>)\<lparr> tick := 5 \<rparr>))))) = Some \<lparr> vx = 4, vy = 0 \<rparr>
   \<and> path (state_of (ontick line_collab (demo_world 2) (state_of (go_to \<lparr> vx = 4, vy = 0 \<rparr>
      ((init \<lparr> recalculateEvery = None \<rparr>)\<lparr> tick := 5 \<rparr>))))) = Some [\<lparr> nx = 4, ny = 0 \<rparr>]"
proof -
  let ?s = "state_of (go_to \<lparr> vx = 4, vy = 0 \<rparr>
      ((init \<lparr> recalculateEvery = None \<rparr>)\<lparr> tick := 5 \<rparr>)) :: string list pathfinder"
  have r: "reachable line_collab ?s"
    by (rule reachable_go_to [OF reachable_idle_ticks]) simp
  have g: "ontick_gate line_collab (demo_world 2) ?s =
      Proceed ((demo_state 4)\<lparr> tick := 6, grid := Some [] \<rparr>)"
    by (simp add: go_to_def start_def ontick_gate_def ontick_cells_def snode_def dnode_def
        MovementInterval_def line_collab_def demo_world_def demo_state_def init_def Let_def)
  have p: "\<not> paused ?s" by (simp add: go_to_def start_def)
  have e: "ontick line_collab (demo_world 2) ?s =
      Returned ((demo_state 4)\<lparr> tick := 6, moved := False, grid := Some [''reset'', ''search''],
                 path := Some [\<lparr> nx = 4, ny = 0 \<rparr>] \<rparr>)
       [Emit (EngineRecalculate [\<lparr> vx = 3, vy = 0 \<rparr>, \<lparr> vx = 4, vy = 0 \<rparr>]),
        Emit (EngineMove \<lparr> vx = 3, vy = 0 \<rparr>),
        TransformMove \<lparr> vx = 3, vy = 0 \<rparr> \<lparr> vx = 1, vy = 1 \<rparr>]"
    by (simp add: go_to_def start_def ontick_def ontick_gate_def ontick_cells_def ontick_recalculate_def
        must_recalculate_def recalculate_def ontick_consume_def stop_reached_def snode_def dnode_def
        MovementInterval_def line_collab_def demo_world_def demo_state_def init_def Let_def)
  from missing_path_is_pending [OF r, of "demo_world 2" "(demo_state 4)\<lparr> tick := 6, grid := Some [] \<rparr>"]
    r g p e show ?thesis
    by (simp add: go_to_def start_def demo_state_def init_def)
qed

theorem destination_without_path_counterexample:
  "reachable line_collab (state_of (go_to \<lparr> vx = 4, vy = 0 \<rparr>
      ((init \<lparr> recalculateEvery = None \<rparr>)\<lparr> tick := 5 \<rparr>)))
   \<and> destination (state_of (go_to \<lparr> vx = 4, vy = 0 \<rparr>
      ((init \<lparr> recalculateEvery = None \<rparr>)\<lparr> tick := 5 \<rparr>)) :: string list pathfinder) =
      Some \<lparr> vx = 4, vy = 0 \<rparr>
   \<and> path (state_of (go_to \<lparr> vx = 4, vy = 0 \<rparr>
      ((init \<lparr> recalculateEvery = None \<rparr>)\<lparr> tick := 5 \<rparr>)) :: string list pathfinder) = None
   \<and> reachable line_collab (state_of (stop (state_of (ontick line_collab (demo_world 2)
      (state_of (go_to \<lparr> vx = 4, vy = 0 \<rparr> ((init \<lparr> recalculateEvery = None \<rparr>)\<lparr> tick := 5 \<rparr>)))))))
   \<and> destination (state_of (stop (state_of (ontick line_collab (demo_world 2)
      (state_of (go_to \<lparr> vx = 4, vy = 0 \<rparr> ((init \<lparr> recalculateEvery = None \<rparr>)\<lparr> tick := 5 \<rparr>))))))) =
      None
   \<and> path (state_of (stop (state_of (ontick line_collab (demo_world 2)
      (state_of (go_to \<lparr> vx = 4, vy = 0 \<rparr> ((init \<lparr> recalculateEvery = None \<rparr>)\<lparr> tick := 5 \<rparr>))))))) =
      Some [\<lparr> nx = 4, ny = 0 \<rparr>]"
proof -
  let ?s = "state_of (go_to \<lparr> vx = 4, vy = 0 \<rparr>
      ((init \<lparr> recalculateEvery = None \<rparr>)\<lparr> tick := 5 \<rparr>)) :: string list pathfinder"
  have r: "reachable line_collab ?s"
    by (rule reachable_go_to [OF reachable_idle_ticks]) simp
  have r': "reachable line_collab (state_of (stop (state_of (ontick line_collab (demo_world 2) ?s))))"
    by (intro reach_stop reach_ontick r)
  have e: "ontick line_collab (demo_world 2) ?s =
      Returned ((demo_state 4)\<lparr> tick := 6, moved := False, grid := Some [''reset'', ''search''],
                 path := Some [\<lparr> nx = 4, ny = 0 \<rparr>] \<rparr>)
       [Emit (EngineRecalculate [\<lparr> vx = 3, vy = 0 \<rparr>, \<lparr> vx = 4, vy = 0 \<rparr>]),
        Emit (EngineMove \<lparr> vx = 3, vy = 0 \<rparr>),
        TransformMove \<lparr> vx = 3, vy = 0 \<rparr> \<lparr> vx = 1, vy = 1 \<rparr>]"
    by (simp add: go_to_def start_def ontick_def ontick_gate_def ontick_cells_def ontick_recalculate_def
        must_recalculate_def recalculate_def ontick_consume_def stop_reached_def snode_def dnode_def
        MovementInterval_def line_collab_def demo_world_def demo_state_def init_def Let_def)
  from r r' show ?thesis
    by (simp add: e stop_def stop_reached_def) (simp add: go_to_def start_def init_def)
qed

subsection \<open>Idle ticks\<close>

text \<open>
  C8, as the code has it. A tick whose incremented counter is not a multiple of 6, or
  that finds no map, only increments the counter and emits nothing. A tick with no
  destination or no current position emits nothing either and changes nothing but the
  counter and the grid: on an acting tick that finds a map and no grid loaded yet, the
  grid file is read before the destination is looked at, and the loaded grid is
  stored.
\<close>

theorem idle_tick_frame:
  "((tick s + 1) mod MovementInterval \<noteq> 0 \<or> room_map w = None
      \<longrightarrow> ontick c w s = Returned (s\<lparr> tick := tick s + 1 \<rparr>) [])
   \<and> (destination s = None \<or> position w = None
      \<longrightarrow> effects_of (ontick c w s) = []
        \<and> state_of (ontick c w s) =
            s\<lparr> tick := tick s + 1, grid := grid (state_of (ontick c w s)) \<rparr>
        \<and> (grid (state_of (ontick c w s)) = grid s
           \<or> (tick s + 1) mod MovementInterval = 0 \<and> grid s = None
             \<and> (\<exists>m g. room_map w = Some m \<and> loadGrid c m = Inr g
                   \<and> grid (state_of (ontick c w s)) = Some g)))"
proof (intro conjI impI)
  assume "(tick s + 1) mod MovementInterval \<noteq> 0 \<or> room_map w = None"
  then show "ontick c w s = Returned (s\<lparr> tick := tick s + 1 \<rparr>) []"
    by (auto simp: ontick_def ontick_gate_def Let_def)
next
  assume idle: "destination s = None \<or> position w = None"
  show "effects_of (ontick c w s) = []" by (rule ontick_idle(1) [OF idle])
  show "state_of (ontick c w s) =
            s\<lparr> tick := tick s + 1, grid := grid (state_of (ontick c w s)) \<rparr>"
    by (rule ontick_idle(2) [OF idle])
  show "grid (state_of (ontick c w s)) = grid s
           \<or> (tick s + 1) mod MovementInterval = 0 \<and> grid s = None
             \<and> (\<exists>m g. room_map w = Some m \<and> loadGrid c m = Inr g
                   \<and> grid (state_of (ontick c w s)) = Some g)"
    by (rule ontick_idle(3) [OF idle])
qed

theorem idle_tick_frame_witness:
  "(tick ((init \<lparr> recalculateEvery = None \<rparr>) :: string list pathfinder) + 1) mod MovementInterval \<noteq> 0
   \<and> ontick line_collab (demo_world 2) (init \<lparr> recalculateEvery = None \<rparr>) =
       Returned ((init \<lparr> recalculateEvery = None \<rparr>)\<lparr> tick := 1 \<rparr>) []
   \<and> destination ((init \<lparr> recalculateEvery = None \<rparr>)\<lparr> tick := 5 \<rparr> :: string list pathfinder) = None
   \<and> effects_of (ontick line_collab (demo_world 2)
        ((init \<lparr> recalculateEvery = None \<rparr>)\<lparr> tick := 5 \<rparr>)) = []
   \<and> state_of (ontick line_collab (demo_world 2)
        ((init \<lparr> recalculateEvery = None \<rparr>)\<lparr> tick := 5 \<rparr>)) =
       (init \<lparr> recalculateEvery = None \<rparr>)\<lparr> tick := 6, grid := Some [] \<rparr>"
proof -
  let ?i = "init \<lparr> recalculateEvery = None \<rparr> :: string list pathfinder"
  have a: "(tick ?i + 1) mod MovementInterval \<noteq> 0 \<or> room_map (demo_world 2) = None"
    by (simp add: init_def MovementInterval_def)
  have b: "destination (?i\<lparr> tick := 5 \<rparr>) = None \<or> position (demo_world 2) = None"
    by (simp add: init_def)
  have g: "grid (state_of (ontick line_collab (demo_world 2) (?i\<lparr> tick := 5 \<rparr>))) = Some []"
    by (simp add: ontick_def ontick_gate_def ontick_cells_def ontick_recalculate_def
        must_recalculate_def recalculate_def ontick_consume_def stop_reached_def snode_def dnode_def
        MovementInterval_def line_collab_def demo_world_def demo_state_def init_def Let_def)
  from idle_tick_frame [of ?i "demo_world 2" line_collab]
    idle_tick_frame [of "?i\<lparr> tick := 5 \<rparr>" "demo_world 2" line_collab] a b g
  show ?thesis by (simp add: init_def MovementInterval_def)
qed

theorem idle_tick_loads_grid_counterexample:
  "destination ((init \<lparr> recalculateEvery = None \<rparr>)\<lparr> tick := 5 \<rparr> :: string list pathfinder) = None
   \<and> grid ((init \<lparr> recalculateEvery = None \<rparr>)\<lparr> tick := 5 \<rparr> :: string list pathfinder) = None
   \<and> ontick line_collab (demo_world 2) ((init \<lparr> recalculateEvery = None \<rparr>)\<lparr> tick := 5 \<rparr>) =
       Returned ((init \<lparr> recalculateEvery = None \<rparr>)\<lparr> tick := 6, grid := Some [] \<rparr>) []
   \<and> state_of (ontick line_collab (demo_world 2) ((init \<lparr> recalculateEvery = None \<rparr>)\<lparr> tick := 5 \<rparr>)) \<noteq>
       (init \<lparr> recalculateEvery = None \<rparr>)\<lparr> tick := 6 \<rparr>"
  by (simp add: ontick_def ontick_gate_def ontick_cells_def ontick_recalculate_def
        must_recalculate_def recalculate_def ontick_consume_def stop_reached_def snode_def dnode_def
        MovementInterval_def line_collab_def demo_world_def demo_state_def init_def Let_def)

subsection \<open>Exceptions\<close>

text \<open>
  C9, as the code has it. The tick handler has no exception handler. With collaborators
  that return (the grid queries, the search, the listeners, the actuator), the one
  exception that leaves it is a failed load of the grid: on an acting tick with a map
  and no grid loaded, a load that raises ends the tick with that exception, after the
  counter was incremented and with nothing else changed or emitted. In every other
  case the handler returns.
\<close>

theorem ontick_raises_only_on_load:
  "((tick s + 1) mod MovementInterval = 0 \<and> grid s = None
      \<and> room_map w = Some m \<and> loadGrid c m = Inl e
     \<longrightarrow> ontick c w s = Thrown e (s\<lparr> tick := tick s + 1 \<rparr>) [])
   \<and> (\<not> ((tick s + 1) mod MovementInterval = 0 \<and> grid s = None
          \<and> (\<exists>m e. room_map w = Some m \<and> loadGrid c m = Inl e))
     \<longrightarrow> returns (ontick c w s))"
proof (intro conjI impI)
  assume "(tick s + 1) mod MovementInterval = 0 \<and> grid s = None
      \<and> room_map w = Some m \<and> loadGrid c m = Inl e"
  then show "ontick c w s = Thrown e (s\<lparr> tick := tick s + 1 \<rparr>) []"
    by (simp add: ontick_def ontick_gate_load_fails)
next
  assume ok: "\<not> ((tick s + 1) mod MovementInterval = 0 \<and> grid s = None
          \<and> (\<exists>m e. room_map w = Some m \<and> loadGrid c m = Inl e))"
  show "returns (ontick c w s)"
  proof (cases "ontick_gate c w s")
    case (Done out)
    with ontick_gate_Done [OF Done] ok show ?thesis by (simp add: ontick_def)
  next
    case (Proceed s1)
    from ontick_gate_Proceed [OF Proceed] obtain g where g: "grid s1 = Some g" by blast
    from ontick_recalculate_returns [OF g, of c w] obtain s2 es
      where r: "ontick_recalculate c w s1 = Returned s2 es" by blast
    note u = ontick_unfold [OF Proceed r]
    from ontick_consume_returns [OF u(2) u(4) u(3)] have "returns (ontick_consume c w s2)" .
    then show ?thesis unfolding u(1) by (cases "ontick_consume c w s2") simp_all
  qed
qed

theorem ontick_raises_only_on_load_witness:
  "(tick (demo_state 3) + 1) mod MovementInterval = 0 \<and> grid (demo_state 3) = None
   \<and> room_map ((demo_world 2)\<lparr> room_map := Some 7 \<rparr>) = Some 7
   \<and> loadGrid line_collab 7 = Inl GridLoadError
   \<and> ontick line_collab ((demo_world 2)\<lparr> room_map := Some 7 \<rparr>) (demo_state 3) =
       Thrown GridLoadError ((demo_state 3)\<lparr> tick := 6 \<rparr>) []
   \<and> loadGrid line_collab 0 = Inr []
   \<and> returns (ontick line_collab (demo_world 2) (demo_state 3))"
proof -
  have a: "(tick (demo_state 3) + 1) mod MovementInterval = 0 \<and> grid (demo_state 3) = None
      \<and> room_map ((demo_world 2)\<lparr> room_map := Some 7 \<rparr>) = Some 7
      \<and> loadGrid line_collab 7 = Inl GridLoadError"
    by (simp add: demo_state_def init_def MovementInterval_def line_collab_def)
  have b: "\<not> ((tick (demo_state 3) + 1) mod MovementInterval = 0 \<and> grid (demo_state 3) = None
      \<and> (\<exists>m e. room_map (demo_world 2) = Some m \<and> loadGrid line_collab m = Inl e))"
    by (simp add: demo_world_def line_collab_def)
  from ontick_raises_only_on_load
      [of "demo_state 3" "(demo_world 2)\<lparr> room_map := Some 7 \<rparr>" 7 line_collab GridLoadError]
    ontick_raises_only_on_load [of "demo_state 3" "demo_world 2" 0 line_collab GridLoadError] a b
  show ?thesis by (simp add: demo_state_def init_def line_collab_def)
qed

theorem failed_load_propagates_counterexample:
  "ontick line_collab ((demo_world 2)\<lparr> room_map := Some 7 \<rparr>) (demo_state 3) =
     Thrown GridLoadError ((demo_state 3)\<lparr> tick := 6 \<rparr>) []
   \<and> \<not> returns (ontick line_collab ((demo_world 2)\<lparr> room_map := Some 7 \<rparr>) (demo_state 3))"
  by (simp add: ontick_def ontick_gate_def ontick_cells_def ontick_recalculate_def
        must_recalculate_def recalculate_def ontick_consume_def stop_reached_def snode_def dnode_def
        MovementInterval_def line_collab_def demo_world_def demo_state_def init_def Let_def)

end
